theory Spec2Isabelle
  imports Main "HOL-Library.AList" "HOL-Library.Char_ord" "HOL-Library.List_Lexorder"
begin

section \<open>The file-backed memory of go-joe/file-memory\<close>

text \<open>
  The package keeps a Go \<^verbatim>\<open>map[string]string\<close> in memory and rewrites one JSON file
  on every mutation. The sources hold two revisions of \<^verbatim>\<open>memory.go\<close>: one whose struct is
  the exported \<^verbatim>\<open>Memory\<close> and one whose struct is the unexported \<^verbatim>\<open>memory\<close> (the revision with the
  doc comments). They agree on \<^verbatim>\<open>NewMemory\<close>, \<^verbatim>\<open>Set\<close>, \<^verbatim>\<open>Get\<close>, \<^verbatim>\<open>Memories\<close>, \<^verbatim>\<open>Close\<close> and \<^verbatim>\<open>persist\<close> and
  differ in \<^verbatim>\<open>Delete\<close>; both \<^verbatim>\<open>Delete\<close>s are embedded below, named after their receivers.

  What the code does beyond computing values is explicit in the model:
  \<^item> Go maps are reference objects, so they live in a store of map objects and the
    struct holds a reference (or nil);
  \<^item> the file system, the system calls issued and the failures the operating system
    may report are fields of the \<open>world\<close>;
  \<^item> \<^verbatim>\<open>encoding/json\<close> is not part of the repository: its two entry points are
    parameters of every function that uses them.
\<close>

subsection \<open>Errors\<close>

type_synonym path = string

text \<open>
  The failures the operating system can inject into a call. \<^verbatim>\<open>ENOENT\<close> is kept apart:
  the model reports it exactly when the file is absent.
\<close>

datatype fault = EACCES | EISDIR | EMFILE | EIO | ENOSPC | EROFS

datatype errno = ENOENT | Errno fault

text \<open>
  \<^verbatim>\<open>errors.New\<close>, \<^verbatim>\<open>errors.Wrap\<close> (cause first, message second), \<^verbatim>\<open>*os.PathError\<close> with its
  operation, path and error number, and the errors of the JSON decoder.
\<close>

datatype error =
    New string
  | Wrap error string
  | PathError string path errno
  | SyntaxError string

fun IsNotExist :: "error \<Rightarrow> bool" where
  "IsNotExist (PathError op' name ENOENT) = True"
| "IsNotExist e = False"

subsection \<open>The world: map objects, disk, system calls\<close>

datatype open_flag = O_RDONLY | O_WRONLY | O_CREATE | O_TRUNC

datatype syscall =
    SysOpen path "open_flag list" nat
  | SysRead path
  | SysWrite path string
  | SysClose path

text \<open>
  The outcome the operating system has in store for the next call: success, or a
  failure with its error number and, for a write, the number of bytes that reached the
  file before it failed.
\<close>

datatype outcome = Ok | Fail fault nat

type_synonym gomap = "(string \<times> string) list"

record world =
  maps :: "nat \<Rightarrow> gomap"
  next_map :: nat
  disk :: "path \<rightharpoonup> string"
  pending :: "outcome list"
  syscalls :: "syscall list"

text \<open>Every system call takes the next outcome; an exhausted list means success.\<close>

definition pop :: "world \<Rightarrow> outcome \<times> world" where
  "pop w = (case pending w of [] \<Rightarrow> (Ok, w) | x # xs \<Rightarrow> (x, w\<lparr>pending := xs\<rparr>))"

definition issue :: "syscall \<Rightarrow> world \<Rightarrow> outcome \<times> world" where
  "issue c w = (let (out, w1) = pop w in (out, w1\<lparr>syscalls := syscalls w1 @ [c]\<rparr>))"

text \<open>
  \<^verbatim>\<open>os.OpenFile(name, flag, perm)\<close>. The handle is the path. A missing file is created
  when \<^verbatim>\<open>O_CREATE\<close> is given and reported as \<^verbatim>\<open>ENOENT\<close> otherwise; \<^verbatim>\<open>O_TRUNC\<close> empties
  an existing file; a failed open changes no file.
\<close>

definition os_OpenFile :: "path \<Rightarrow> open_flag list \<Rightarrow> nat \<Rightarrow> world \<Rightarrow> (error + path) \<times> world" where
  "os_OpenFile name flag perm w =
     (let (out, w1) = issue (SysOpen name flag perm) w in
      case disk w1 name of
        None \<Rightarrow>
          if O_CREATE \<in> set flag then
            (case out of
               Fail e n \<Rightarrow> (Inl (PathError ''open'' name (Errno e)), w1)
             | Ok \<Rightarrow> (Inr name, w1\<lparr>disk := (disk w1)(name \<mapsto> [])\<rparr>))
          else (Inl (PathError ''open'' name ENOENT), w1)
      | Some bytes \<Rightarrow>
          (case out of
             Fail e n \<Rightarrow> (Inl (PathError ''open'' name (Errno e)), w1)
           | Ok \<Rightarrow>
               if O_TRUNC \<in> set flag then (Inr name, w1\<lparr>disk := (disk w1)(name \<mapsto> [])\<rparr>)
               else (Inr name, w1)))"

text \<open>\<^verbatim>\<open>os.Open(name)\<close> is \<^verbatim>\<open>OpenFile(name, O_RDONLY, 0)\<close>.\<close>

definition os_Open :: "path \<Rightarrow> world \<Rightarrow> (error + path) \<times> world" where
  "os_Open name w = os_OpenFile name [O_RDONLY] 0 w"

text \<open>Reading the whole file through the handle.\<close>

definition file_Read :: "path \<Rightarrow> world \<Rightarrow> (error + string) \<times> world" where
  "file_Read f w =
     (let (out, w1) = issue (SysRead f) w in
      case out of
        Fail e n \<Rightarrow> (Inl (PathError ''read'' f (Errno e)), w1)
      | Ok \<Rightarrow> (Inr (case disk w1 f of None \<Rightarrow> [] | Some bytes \<Rightarrow> bytes), w1))"

text \<open>
  Writing through the handle. The handles of this program are opened with \<^verbatim>\<open>O_TRUNC\<close>
  and written once, so the bytes follow the (empty) content; a failed write leaves a
  prefix of them.
\<close>

definition file_Write :: "path \<Rightarrow> string \<Rightarrow> world \<Rightarrow> error option \<times> world" where
  "file_Write f bytes w =
     (let (out, w1) = issue (SysWrite f bytes) w;
          old = (case disk w1 f of None \<Rightarrow> [] | Some b \<Rightarrow> b) in
      case out of
        Fail e n \<Rightarrow> (Some (PathError ''write'' f (Errno e)), w1\<lparr>disk := (disk w1)(f \<mapsto> old @ take n bytes)\<rparr>)
      | Ok \<Rightarrow> (None, w1\<lparr>disk := (disk w1)(f \<mapsto> old @ bytes)\<rparr>))"

definition file_Close :: "path \<Rightarrow> world \<Rightarrow> error option \<times> world" where
  "file_Close f w =
     (let (out, w1) = issue (SysClose f) w in
      case out of
        Fail e n \<Rightarrow> (Some (PathError ''close'' f (Errno e)), w1)
      | Ok \<Rightarrow> (None, w1))"

subsection \<open>Go maps as objects\<close>

text \<open>
  A map object is an association list with the operations of \<^verbatim>\<open>HOL-Library.AList\<close>;
  its order stands for the (unspecified) order in which \<^verbatim>\<open>range\<close> visits the entries.
  \<^verbatim>\<open>make(map[string]string)\<close> takes the next free reference.
\<close>

definition make_map :: "world \<Rightarrow> nat \<times> world" where
  "make_map w = (next_map w, w\<lparr>maps := (maps w)(next_map w := []), next_map := Suc (next_map w)\<rparr>)"

text \<open>\<^verbatim>\<open>m[key] = value\<close> and \<^verbatim>\<open>delete(m, key)\<close> on the map object at reference \<open>r\<close>.\<close>

definition map_assign :: "nat \<Rightarrow> string \<Rightarrow> string \<Rightarrow> world \<Rightarrow> world" where
  "map_assign r key val w = w\<lparr>maps := (maps w)(r := AList.update key val (maps w r))\<rparr>"

definition map_delete :: "nat \<Rightarrow> string \<Rightarrow> world \<Rightarrow> world" where
  "map_delete r key w = w\<lparr>maps := (maps w)(r := AList.delete key (maps w r))\<rparr>"

text \<open>\<^verbatim>\<open>value, ok := m[key]\<close>: the zero value and false for a missing key.\<close>

definition map_index :: "gomap \<Rightarrow> string \<Rightarrow> string \<times> bool" where
  "map_index kvs key = (case map_of kvs key of None \<Rightarrow> ([], False) | Some v \<Rightarrow> (v, True))"

subsection \<open>encoding/json as a parameter\<close>

text \<open>
  \<open>Marshal\<close> gives the bytes \<^verbatim>\<open>json.Encoder.Encode\<close> writes for a map value (nil or a
  map); \<open>Unmarshal\<close> gives what \<^verbatim>\<open>json.Decoder.Decode\<close> finds in the bytes: an error,
  the JSON value null, or the members of an object in document order.
\<close>

record json =
  Marshal :: "gomap option \<Rightarrow> string"
  Unmarshal :: "string \<Rightarrow> error + gomap option"

text \<open>
  \<^verbatim>\<open>json.NewEncoder(f).Encode(v)\<close>: the value is marshalled and written to the handle; a
  map of strings always marshals, so only the write can fail.
\<close>

definition json_Encode :: "json \<Rightarrow> path \<Rightarrow> nat option \<Rightarrow> world \<Rightarrow> error option \<times> world" where
  "json_Encode J f v w =
     file_Write f (Marshal J (case v of None \<Rightarrow> None | Some r \<Rightarrow> Some (maps w r))) w"

text \<open>
  \<^verbatim>\<open>json.NewDecoder(f).Decode(&v)\<close> for a map variable \<open>v\<close>. Null sets the variable to
  nil. An object is stored member by member into the map the variable holds (a later
  duplicate key wins), after allocating one when the variable is nil. On an error the
  variable is left as it was: the caller drops the struct in that case.
\<close>

definition json_Decode :: "json \<Rightarrow> path \<Rightarrow> nat option \<Rightarrow> world \<Rightarrow> (error option \<times> nat option) \<times> world" where
  "json_Decode J f v w =
     (let (rd, w1) = file_Read f w in
      case rd of
        Inl e \<Rightarrow> ((Some e, v), w1)
      | Inr bytes \<Rightarrow>
          (case Unmarshal J bytes of
             Inl e \<Rightarrow> ((Some e, v), w1)
           | Inr None \<Rightarrow> ((None, None), w1)
           | Inr (Some members) \<Rightarrow>
               (let (r, w2) = (case v of None \<Rightarrow> make_map w1 | Some r \<Rightarrow> (r, w1)) in
                ((None, Some r), fold (\<lambda>(k, x). map_assign r k x) members w2))))"

subsection \<open>The struct, its options and its constructor\<close>

datatype zap_Logger = NewNop | Named string

text \<open>
  The struct of both revisions. The field \<^verbatim>\<open>mu sync.RWMutex\<close> is declared and never
  locked or unlocked by any function of the package, so it has no counterpart here. The
  log calls write to the logger only and are left out.
\<close>

record memory =
  path :: path
  logger :: "zap_Logger option"
  data :: "nat option"

type_synonym Option = "memory \<Rightarrow> error + memory"

definition WithLogger :: "zap_Logger \<Rightarrow> Option" where
  "WithLogger l = (\<lambda>m. Inr (m\<lparr>logger := Some l\<rparr>))"

text \<open>The loop over the options, which returns at the first error.\<close>

fun apply_opts :: "Option list \<Rightarrow> memory \<Rightarrow> error + memory" where
  "apply_opts [] m = Inr m"
| "apply_opts (opt # opts) m =
     (case opt m of Inl err \<Rightarrow> Inl err | Inr m' \<Rightarrow> apply_opts opts m')"

definition NewMemory :: "json \<Rightarrow> path \<Rightarrow> Option list \<Rightarrow> world \<Rightarrow> (error + memory) \<times> world" where
  "NewMemory J p opts w =
     (let (r, w0) = make_map w in
      case apply_opts opts \<lparr>path = p, logger = None, data = Some r\<rparr> of
        Inl err \<Rightarrow> (Inl err, w0)
      | Inr m0 \<Rightarrow>
          (let m1 = (if logger m0 = None then m0\<lparr>logger := Some NewNop\<rparr> else m0);
               (res, w1) = os_Open p w0 in
           case res of
             Inl err \<Rightarrow>
               if IsNotExist err then (Inr m1, w1)
               else (Inl (Wrap err ''failed to open file''), w1)
           | Inr f \<Rightarrow>
               (let ((derr, d), w2) = json_Decode J f (data m1) w1;
                    (cerr, w3) = file_Close f w2 in
                case derr of
                  Some err \<Rightarrow> (Inl (Wrap err ''failed decode data as JSON''), w3)
                | None \<Rightarrow> (Inr (m1\<lparr>data := d\<rparr>), w3))))"

subsection \<open>The operations\<close>

definition persist :: "json \<Rightarrow> memory \<Rightarrow> world \<Rightarrow> error option \<times> world" where
  "persist J m w =
     (let (res, w1) = os_OpenFile (path m) [O_WRONLY, O_CREATE, O_TRUNC] 432 w in
      case res of
        Inl err \<Rightarrow> (Some (Wrap err ''failed to open file to persist data''), w1)
      | Inr f \<Rightarrow>
          (let (eerr, w2) = json_Encode J f (data m) w1 in
           case eerr of
             Some err \<Rightarrow>
               (let (cerr, w3) = file_Close f w2 in
                (Some (Wrap err ''failed to encode data as JSON''), w3))
           | None \<Rightarrow>
               (let (cerr, w3) = file_Close f w2 in
                case cerr of
                  Some err \<Rightarrow>
                    (Some (Wrap err
                       ''failed to close file; data might not have been fully persisted to disk''), w3)
                | None \<Rightarrow> (None, w3))))"

definition Set :: "json \<Rightarrow> memory \<Rightarrow> string \<Rightarrow> string \<Rightarrow> world \<Rightarrow> error option \<times> world" where
  "Set J m key val w =
     (case data m of
        None \<Rightarrow> (Some (New ''brain was already shut down''), w)
      | Some r \<Rightarrow> persist J m (map_assign r key val w))"

definition Get :: "memory \<Rightarrow> string \<Rightarrow> world \<Rightarrow> string \<times> bool \<times> error option" where
  "Get m key w =
     (case data m of
        None \<Rightarrow> ([], False, Some (New ''brain was already shut down''))
      | Some r \<Rightarrow> (let (val, ok) = map_index (maps w r) key in (val, ok, None)))"

text \<open>\<^verbatim>\<open>(*memory).Delete\<close>: it returns before the removal when the key is missing.\<close>

definition memory_Delete :: "json \<Rightarrow> memory \<Rightarrow> string \<Rightarrow> world \<Rightarrow> (bool \<times> error option) \<times> world" where
  "memory_Delete J m key w =
     (case data m of
        None \<Rightarrow> ((False, Some (New ''brain was already shut down'')), w)
      | Some r \<Rightarrow>
          (let (val, ok) = map_index (maps w r) key in
           if \<not> ok then ((False, None), w)
           else (let (err, w1) = persist J m (map_delete r key w) in ((ok, err), w1))))"

text \<open>\<^verbatim>\<open>(*Memory).Delete\<close>: it removes and persists whether or not the key was there.\<close>

definition Memory_Delete :: "json \<Rightarrow> memory \<Rightarrow> string \<Rightarrow> world \<Rightarrow> (bool \<times> error option) \<times> world" where
  "Memory_Delete J m key w =
     (case data m of
        None \<Rightarrow> ((False, Some (New ''brain was already shut down'')), w)
      | Some r \<Rightarrow>
          (let (val, ok) = map_index (maps w r) key;
               (err, w1) = persist J m (map_delete r key w) in
           ((ok, err), w1)))"

text \<open>
  \<^verbatim>\<open>Memories\<close>: a new map object, filled by the loop over the entries of the struct's
  map. It returns the reference of the new object.
\<close>

definition Memories :: "memory \<Rightarrow> world \<Rightarrow> (nat option \<times> error option) \<times> world" where
  "Memories m w =
     (case data m of
        None \<Rightarrow> ((None, Some (New ''brain was already shut down'')), w)
      | Some r \<Rightarrow>
          (let (c, w1) = make_map w in
           ((Some c, None), fold (\<lambda>(k, v). map_assign c k v) (maps w r) w1)))"

text \<open>\<^verbatim>\<open>Close\<close> calls nothing: it only sets the field to nil.\<close>

definition Close :: "memory \<Rightarrow> error option \<times> memory" where
  "Close m =
     (case data m of
        None \<Rightarrow> (Some (New ''brain was already closed''), m)
      | Some r \<Rightarrow> (None, m\<lparr>data := None\<rparr>))"

text \<open>
  Modelled from the spec: \<^verbatim>\<open>Keys\<close> is called by \<^verbatim>\<open>memory_test.go\<close> and announced by
  \<^verbatim>\<open>CHANGELOG.md\<close>, and neither revision of \<^verbatim>\<open>memory.go\<close> defines it. The spec
  (section 4.5): it fails on a closed store like its siblings; otherwise it returns
  every key, sorted lexicographically before the return. The keys are collected in the
  order \<^verbatim>\<open>range\<close> visits them and then sorted bytewise, as Go compares strings.
\<close>

definition Keys :: "memory \<Rightarrow> world \<Rightarrow> string list \<times> error option" where
  "Keys m w =
     (case data m of
        None \<Rightarrow> ([], Some (New ''brain was already shut down''))
      | Some r \<Rightarrow> (sort (map fst (maps w r)), None))"

subsection \<open>Callers\<close>


text \<open>
  What a caller can do to a map it holds a reference to: assign and delete. A list of
  such statements is run in order.
\<close>

datatype map_stmt = Assign string string | Remove string

fun exec_stmt :: "nat \<Rightarrow> map_stmt \<Rightarrow> world \<Rightarrow> world" where
  "exec_stmt c (Assign k v) w = map_assign c k v w"
| "exec_stmt c (Remove k) w = map_delete c k w"

definition exec_stmts :: "nat \<Rightarrow> map_stmt list \<Rightarrow> world \<Rightarrow> world" where
  "exec_stmts c stmts w = fold (exec_stmt c) stmts w"

subsection \<open>Well-formed states\<close>

text \<open>
  Two facts Go guarantees by construction and the association lists do not: a non-nil
  map reference points to an allocated object, and a map holds each key once.
\<close>

definition well_formed :: "memory \<Rightarrow> world \<Rightarrow> bool" where
  "well_formed m w =
     (case data m of
        None \<Rightarrow> True
      | Some r \<Rightarrow> r < next_map w \<and> distinct (map fst (maps w r)))"

subsection \<open>What the package needs from the JSON library\<close>


subsection \<open>Concrete inputs\<close>

text \<open>
  A world before the program has run, the store \<^verbatim>\<open>NewMemory\<close> builds in it for a path
  without a file, and the world it leaves.
\<close>

definition boot :: world where
  "boot = \<lparr>maps = (\<lambda>r. []), next_map = 0, disk = Map.empty, pending = [], syscalls = []\<rparr>"

definition joe :: memory where
  "joe = \<lparr>path = ''/tmp/joe.json'', logger = Some NewNop, data = Some 0\<rparr>"

definition fresh :: world where
  "fresh = \<lparr>maps = (\<lambda>r. []), next_map = 1, disk = Map.empty, pending = [],
            syscalls = [SysOpen ''/tmp/joe.json'' [O_RDONLY] 0]\<rparr>"

text \<open>
  A stand-in for \<^verbatim>\<open>encoding/json\<close> on the documents of the examples. The encoder writes
  the members in key order, without escapes, and a newline after the value; the decoder
  knows three documents. \<^verbatim>\<open>encoding/json\<close> treats these inputs the same way; in
  particular it decodes the document \<^verbatim>\<open>null\<close> into a map variable by setting it to nil,
  without an error.
\<close>

definition json_members :: "gomap \<Rightarrow> string" where
  \<open>json_members kvs = concat (map (\<lambda>(k, v). ''"'' @ k @ ''":"'' @ v @ ''",'') kvs)\<close>

definition sample_json :: json where
  \<open>sample_json =
     \<lparr>Marshal = (\<lambda>v. case v of
                   None \<Rightarrow> ''null\<newline>''
                 | Some kvs \<Rightarrow> ''{'' @ butlast (json_members (sort_key fst kvs)) @ ''}\<newline>''),
      Unmarshal = (\<lambda>b.
        if b = ''null'' then Inr None
        else if b = ''{}\<newline>'' then Inr (Some [])
        else if b = ''{"foo":"bar"}\<newline>'' then Inr (Some [(''foo'', ''bar'')])
        else Inl (SyntaxError ''invalid character''))\<rparr>\<close>

section \<open>Properties\<close>

subsection \<open>System calls and persist\<close>

lemma issue_eq:
  "issue c w = ((case pending w of [] \<Rightarrow> Ok | x # xs \<Rightarrow> x),
                w\<lparr>pending := tl (pending w), syscalls := syscalls w @ [c]\<rparr>)"
  by (cases "pending w") (simp_all add: issue_def pop_def)

lemma os_OpenFile_frame:
  "maps (snd (os_OpenFile name flag perm w)) = maps w"
  "next_map (snd (os_OpenFile name flag perm w)) = next_map w"
  "syscalls (snd (os_OpenFile name flag perm w)) = syscalls w @ [SysOpen name flag perm]"
  "pending (snd (os_OpenFile name flag perm w)) = tl (pending w)"
  "q \<noteq> name \<Longrightarrow> disk (snd (os_OpenFile name flag perm w)) q = disk w q"
  by (simp_all add: os_OpenFile_def issue_eq split: option.splits outcome.splits)


lemma os_OpenFile_Inr:
  "fst (os_OpenFile name flag perm w) = Inr f \<Longrightarrow> f = name"
  by (simp add: os_OpenFile_def issue_eq split: option.splits outcome.splits if_splits)


lemma file_Read_frame:
  "maps (snd (file_Read f w)) = maps w"
  "next_map (snd (file_Read f w)) = next_map w"
  "syscalls (snd (file_Read f w)) = syscalls w @ [SysRead f]"
  "pending (snd (file_Read f w)) = tl (pending w)"
  "disk (snd (file_Read f w)) = disk w"
  by (simp_all add: file_Read_def issue_eq split: outcome.splits)

lemma file_Write_frame:
  "maps (snd (file_Write f bytes w)) = maps w"
  "next_map (snd (file_Write f bytes w)) = next_map w"
  "syscalls (snd (file_Write f bytes w)) = syscalls w @ [SysWrite f bytes]"
  "pending (snd (file_Write f bytes w)) = tl (pending w)"
  "q \<noteq> f \<Longrightarrow> disk (snd (file_Write f bytes w)) q = disk w q"
  by (simp_all add: file_Write_def issue_eq Let_def split: outcome.splits)


lemma file_Close_frame:
  "maps (snd (file_Close f w)) = maps w"
  "next_map (snd (file_Close f w)) = next_map w"
  "syscalls (snd (file_Close f w)) = syscalls w @ [SysClose f]"
  "pending (snd (file_Close f w)) = tl (pending w)"
  "disk (snd (file_Close f w)) = disk w"
  by (simp_all add: file_Close_def issue_eq split: outcome.splits)

lemmas sys_frame = os_OpenFile_frame file_Read_frame file_Write_frame file_Close_frame

lemmas persist_unfold = persist_def json_Encode_def Let_def case_prod_beta

lemmas persist_run =
  persist_def os_OpenFile_def json_Encode_def file_Write_def file_Close_def issue_eq Let_def

lemma persist_frame:
  "maps (snd (persist J m w)) = maps w"
  "next_map (snd (persist J m w)) = next_map w"
  by (simp_all add: persist_unfold sys_frame split: sum.splits option.splits)

lemma persist_other_files:
  "p \<noteq> path m \<Longrightarrow> disk (snd (persist J m w)) p = disk w p"
  by (auto simp add: persist_unfold sys_frame dest!: os_OpenFile_Inr split: sum.splits option.splits)

lemma persist_opens:
  "\<exists>rest. syscalls (snd (persist J m w)) =
      syscalls w @ SysOpen (path m) [O_WRONLY, O_CREATE, O_TRUNC] 432 # rest"
  by (simp add: persist_unfold sys_frame split: sum.splits option.splits)


lemma persist_quiet:
  "pending w = [] \<Longrightarrow>
   persist J m w =
     (None,
      w\<lparr>disk := (disk w)(path m \<mapsto>
           Marshal J (case data m of None \<Rightarrow> None | Some r \<Rightarrow> Some (maps w r))),
        syscalls := syscalls w @
          [SysOpen (path m) [O_WRONLY, O_CREATE, O_TRUNC] 432,
           SysWrite (path m)
             (Marshal J (case data m of None \<Rightarrow> None | Some r \<Rightarrow> Some (maps w r))),
           SysClose (path m)]\<rparr>)"
  by (simp add: persist_run split: option.splits)

lemma map_delete_absent: "map_of (maps w r) key = None \<Longrightarrow> map_delete r key w = w"
  by (simp add: map_delete_def map_of_eq_None_iff delete_id)

lemma sample_Marshal_empty: "Marshal sample_json (Some []) = ''{}\<newline>''"
  by (simp add: sample_json_def json_members_def)

subsection \<open>Delete of a missing key\<close>


text \<open>
  C1, for \<^verbatim>\<open>(*Memory).Delete\<close>. On an open store and a key the mapping does not contain,
  \<^verbatim>\<open>(*Memory).Delete\<close> returns false together with whatever \<^verbatim>\<open>persist\<close> returns, and it does run
  \<^verbatim>\<open>persist\<close>: the backing file is opened with \<^verbatim>\<open>O_TRUNC\<close> and rewritten. So this revision
  neither skips the write nor always returns a nil error; the other revision does both
  (\<open>memory_Delete_absent\<close>).
\<close>

theorem Memory_Delete_absent_persists:
  assumes "data m = Some r" and "map_of (maps w r) key = None"
  shows "Memory_Delete J m key w = ((False, fst (persist J m w)), snd (persist J m w)) \<and>
         (\<exists>rest. syscalls (snd (Memory_Delete J m key w)) =
            syscalls w @ SysOpen (path m) [O_WRONLY, O_CREATE, O_TRUNC] 432 # rest)"
proof -
  have eq: "Memory_Delete J m key w = ((False, fst (persist J m w)), snd (persist J m w))"
    using assms by (simp add: Memory_Delete_def map_index_def map_delete_absent split: prod.splits)
  show ?thesis
    using persist_opens [of J m w] by (simp add: eq)
qed

text \<open>
  The empty store on a read-only file system: deleting the missing key \<open>foo\<close> reports
  the failed open. On a writable one the file appears, holding the empty object.
\<close>

theorem Memory_Delete_absent_persists_witness:
  "data joe = Some 0 \<and> map_of (maps fresh 0) ''foo'' = None \<and>
   fst (Memory_Delete sample_json joe ''foo'' (fresh\<lparr>pending := [Fail EROFS 0]\<rparr>)) =
     (False, Some (Wrap (PathError ''open'' ''/tmp/joe.json'' (Errno EROFS))
                      ''failed to open file to persist data'')) \<and>
   disk (snd (Memory_Delete sample_json joe ''foo'' fresh)) ''/tmp/joe.json'' = Some ''{}\<newline>''"
proof -
  have h1: "data joe = Some 0" by (simp add: joe_def)
  have h2: "map_of (maps fresh 0) ''foo'' = None" by (simp add: fresh_def)
  have h3: "map_of (maps (fresh\<lparr>pending := [Fail EROFS 0]\<rparr>) 0) ''foo'' = None"
    by (simp add: fresh_def)
  have p1: "fst (persist sample_json joe (fresh\<lparr>pending := [Fail EROFS 0]\<rparr>)) =
      Some (Wrap (PathError ''open'' ''/tmp/joe.json'' (Errno EROFS))
                      ''failed to open file to persist data'')"
    by (simp add: persist_run joe_def fresh_def)
  have p2: "disk (snd (persist sample_json joe fresh)) ''/tmp/joe.json'' = Some ''{}\<newline>''"
    by (simp add: persist_quiet fresh_def joe_def sample_Marshal_empty)
  show ?thesis
    using Memory_Delete_absent_persists [OF h1 h3, of sample_json]
      Memory_Delete_absent_persists [OF h1 h2, of sample_json] h1 h2 p1 p2
    by simp
qed


subsection \<open>The closed store\<close>

lemma Close_ok: "Close m = (None, m') \<Longrightarrow> data m' = None"
  by (auto simp: Close_def split: option.splits)

text \<open>
  C3. Once \<^verbatim>\<open>Close\<close> has returned nil, \<^verbatim>\<open>Get\<close>, \<^verbatim>\<open>Set\<close>, both \<^verbatim>\<open>Delete\<close>s and \<^verbatim>\<open>Memories\<close> return
  the error "brain was already shut down" and a second \<^verbatim>\<open>Close\<close> returns the error "brain
  was already closed". Each of them hands back the world it was given: no map object
  is changed, no system call is issued, no file is written. \<^verbatim>\<open>Close\<close> itself has no
  access to the world at all: its body is one assignment to the field.
\<close>

theorem closed_store_fails:
  assumes "Close m = (None, m')"
  shows "Get m' key w = ([], False, Some (New ''brain was already shut down'')) \<and>
         Set J m' key val w = (Some (New ''brain was already shut down''), w) \<and>
         memory_Delete J m' key w = ((False, Some (New ''brain was already shut down'')), w) \<and>
         Memory_Delete J m' key w = ((False, Some (New ''brain was already shut down'')), w) \<and>
         Memories m' w = ((None, Some (New ''brain was already shut down'')), w) \<and>
         Close m' = (Some (New ''brain was already closed''), m')"
proof -
  have "data m' = None" using assms by (rule Close_ok)
  then show ?thesis
    by (simp add: Get_def Set_def memory_Delete_def Memory_Delete_def Memories_def Close_def)
qed

theorem closed_store_fails_witness:
  "Close joe = (None, joe\<lparr>data := None\<rparr>) \<and>
   Set sample_json (joe\<lparr>data := None\<rparr>) ''foo'' ''bar'' fresh =
     (Some (New ''brain was already shut down''), fresh) \<and>
   Close (joe\<lparr>data := None\<rparr>) = (Some (New ''brain was already closed''), joe\<lparr>data := None\<rparr>)"
proof -
  have h: "Close joe = (None, joe\<lparr>data := None\<rparr>)" by (simp add: Close_def joe_def)
  show ?thesis
    using closed_store_fails [OF h, of "''foo''" fresh sample_json "''bar''"] h by simp
qed

subsection \<open>Set\<close>




subsection \<open>The file after a successful mutation\<close>



subsection \<open>Keys\<close>

text \<open>
  C2. On an open store whose map holds each key once, \<^verbatim>\<open>Keys\<close> returns no error and a
  list that contains exactly the keys of the mapping, each once, in ascending
  lexicographic order. The list is determined by the mapping alone: any other order of
  the same entries in the map object gives the same result.
\<close>

theorem Keys_sorted_each_once:
  assumes "data m = Some r" and "distinct (map fst (maps w r))"
  shows "snd (Keys m w) = None \<and>
         set (fst (Keys m w)) = dom (map_of (maps w r)) \<and>
         distinct (fst (Keys m w)) \<and>
         sorted (fst (Keys m w)) \<and>
         (\<forall>w2. distinct (map fst (maps w2 r)) \<and> map_of (maps w2 r) = map_of (maps w r)
            \<longrightarrow> Keys m w2 = Keys m w)"
proof -
  have k: "\<And>w0. Keys m w0 = (sort (map fst (maps w0 r)), None)"
    using assms(1) by (simp add: Keys_def)
  have a: "set (fst (Keys m w)) = dom (map_of (maps w r))"
    by (simp add: k dom_map_of_conv_image_fst)
  have b: "distinct (fst (Keys m w))" using assms(2) by (simp add: k)
  have c: "sorted (fst (Keys m w))" by (simp add: k)
  have d: "Keys m w2 = Keys m w"
    if h: "distinct (map fst (maps w2 r)) \<and> map_of (maps w2 r) = map_of (maps w r)" for w2
  proof -
    have "fst ` set (maps w2 r) = fst ` set (maps w r)"
      using h dom_map_of_conv_image_fst [of "maps w2 r"] dom_map_of_conv_image_fst [of "maps w r"]
      by simp
    then have s: "set (sort (map fst (maps w2 r))) = set (sort (map fst (maps w r)))"
      by simp
    have d2: "distinct (sort (map fst (maps w2 r)))" using h by simp
    have d1: "distinct (sort (map fst (maps w r)))" using assms(2) by simp
    have "sort (map fst (maps w2 r)) = sort (map fst (maps w r))"
      by (rule sorted_distinct_set_unique [OF sorted_sort d2 sorted_sort d1 s])
    then show ?thesis by (simp add: k)
  qed
  show ?thesis
    apply (intro conjI allI impI)
        apply (simp add: k)
       apply (rule a)
      apply (rule b)
     apply (rule c)
    apply (erule d)
    done
qed

text \<open>The keys of the test, assigned in the order \<open>foo3\<close>, \<open>foo1\<close>, \<open>foo2\<close>.\<close>

theorem Keys_sorted_each_once_witness:
  "data joe = Some 0 \<and>
   distinct (map fst (maps (map_assign 0 ''foo2'' ''c'' (map_assign 0 ''foo1'' ''b'' (map_assign 0 ''foo3'' ''a'' fresh))) 0)) \<and>
   Keys joe (map_assign 0 ''foo2'' ''c'' (map_assign 0 ''foo1'' ''b'' (map_assign 0 ''foo3'' ''a'' fresh))) =
     ([''foo1'', ''foo2'', ''foo3''], None)"
proof -
  let ?w = "map_assign 0 ''foo2'' ''c'' (map_assign 0 ''foo1'' ''b'' (map_assign 0 ''foo3'' ''a'' fresh))"
  have h: "data joe = Some 0" by (simp add: joe_def)
  have m: "maps ?w 0 = [(''foo3'', ''a''), (''foo1'', ''b''), (''foo2'', ''c'')]"
    by (simp add: map_assign_def fresh_def)
  have d: "distinct (map fst (maps ?w 0))" by (simp add: m)
  have k: "Keys joe ?w = ([''foo1'', ''foo2'', ''foo3''], None)"
    by (simp add: Keys_def h m)
  from Keys_sorted_each_once [OF h d] h d k show ?thesis by simp
qed

subsection \<open>Memories\<close>

text \<open>The loop that fills a map from a list of entries, on the association lists.\<close>

lemma fold_update_map_of:
  "map_of (fold (\<lambda>(k, v). AList.update k v) kvs acc) = map_of acc ++ map_of (rev kvs)"
proof (induction kvs arbitrary: acc)
  case Nil
  show ?case by simp
next
  case (Cons kv kvs)
  obtain k v where kv: "kv = (k, v)" by (cases kv)
  have "map_of (fold (\<lambda>(k, v). AList.update k v) (kv # kvs) acc) =
        map_of (AList.update k v acc) ++ map_of (rev kvs)"
    by (simp add: kv Cons.IH)
  also have "\<dots> = map_of acc ++ map_of (rev (kv # kvs))"
    by (rule ext) (simp add: kv update_conv' map_add_def split: option.splits)
  finally show ?case .
qed

lemma map_of_rev_distinct:
  "distinct (map fst kvs) \<Longrightarrow> map_of (rev kvs) = map_of kvs"
proof (induction kvs)
  case Nil
  show ?case by simp
next
  case (Cons kv kvs)
  obtain k v where kv: "kv = (k, v)" by (cases kv)
  from Cons.prems have nk: "map_of kvs k = None" and d: "distinct (map fst kvs)"
    by (simp_all add: kv map_of_eq_None_iff)
  show ?case
    by (rule ext) (simp add: kv Cons.IH [OF d] map_add_def nk split: option.splits)
qed

lemma fold_update_distinct:
  "distinct (map fst (fold (\<lambda>(k, v). AList.update k v) kvs acc)) = distinct (map fst acc)"
proof (induction kvs arbitrary: acc)
  case Nil
  show ?case by simp
next
  case (Cons kv kvs)
  show ?case by (cases kv) (simp add: Cons.IH update_keys)
qed

lemma fold_map_assign:
  "fold (\<lambda>(k, v). map_assign c k v) kvs w =
     w\<lparr>maps := (maps w)(c := fold (\<lambda>(k, v). AList.update k v) kvs (maps w c))\<rparr>"
proof (induction kvs arbitrary: w)
  case Nil
  show ?case by simp
next
  case (Cons kv kvs)
  obtain k v where kv: "kv = (k, v)" by (cases kv)
  have "fold (\<lambda>(k, v). map_assign c k v) (kv # kvs) w =
        fold (\<lambda>(k, v). map_assign c k v) kvs (map_assign c k v w)"
    by (simp add: kv)
  also have "\<dots> = (map_assign c k v w)\<lparr>maps := (maps (map_assign c k v w))
       (c := fold (\<lambda>(k, v). AList.update k v) kvs (maps (map_assign c k v w) c))\<rparr>"
    by (rule Cons.IH)
  also have "\<dots> = w\<lparr>maps := (maps w)(c := fold (\<lambda>(k, v). AList.update k v) (kv # kvs) (maps w c))\<rparr>"
    by (simp add: map_assign_def kv)
  finally show ?case .
qed

text \<open>Statements on one map object leave every other object and the files alone.\<close>

lemma exec_stmt_frame:
  "next_map (exec_stmt c s w) = next_map w"
  "disk (exec_stmt c s w) = disk w"
  "pending (exec_stmt c s w) = pending w"
  "syscalls (exec_stmt c s w) = syscalls w"
  "r \<noteq> c \<Longrightarrow> maps (exec_stmt c s w) r = maps w r"
proof -
  show "next_map (exec_stmt c s w) = next_map w"
    by (cases s) (simp_all add: map_assign_def map_delete_def)
  show "disk (exec_stmt c s w) = disk w"
    by (cases s) (simp_all add: map_assign_def map_delete_def)
  show "pending (exec_stmt c s w) = pending w"
    by (cases s) (simp_all add: map_assign_def map_delete_def)
  show "syscalls (exec_stmt c s w) = syscalls w"
    by (cases s) (simp_all add: map_assign_def map_delete_def)
  show "r \<noteq> c \<Longrightarrow> maps (exec_stmt c s w) r = maps w r"
    by (cases s) (simp_all add: map_assign_def map_delete_def)
qed

lemma exec_stmts_next_map: "next_map (exec_stmts c stmts w) = next_map w"
  unfolding exec_stmts_def by (induction stmts arbitrary: w) (simp_all add: exec_stmt_frame)

lemma exec_stmts_disk: "disk (exec_stmts c stmts w) = disk w"
  unfolding exec_stmts_def by (induction stmts arbitrary: w) (simp_all add: exec_stmt_frame)

lemma exec_stmts_syscalls: "syscalls (exec_stmts c stmts w) = syscalls w"
  unfolding exec_stmts_def by (induction stmts arbitrary: w) (simp_all add: exec_stmt_frame)

lemma exec_stmts_other: "r \<noteq> c \<Longrightarrow> maps (exec_stmts c stmts w) r = maps w r"
  unfolding exec_stmts_def by (induction stmts arbitrary: w) (simp_all add: exec_stmt_frame)

lemma Memories_open:
  assumes "data m = Some r"
  shows "Memories m w =
     ((Some (next_map w), None),
      w\<lparr>maps := (maps w)(next_map w := fold (\<lambda>(k, v). AList.update k v) (maps w r) []),
        next_map := Suc (next_map w)\<rparr>)"
  using assms by (simp add: Memories_def make_map_def fold_map_assign)

lemma Memories_copy:
  assumes "data m = Some r" and "distinct (map fst (maps w r))"
  shows "map_of (maps (snd (Memories m w)) (next_map w)) = map_of (maps w r)"
  by (simp add: Memories_open [OF assms(1)] fold_update_map_of map_of_rev_distinct [OF assms(2)])

text \<open>
  C8. On a well-formed open store \<^verbatim>\<open>Memories\<close> returns no error and a reference to a new
  map object, different from the one the struct holds, with the same mapping; it
  touches no file. Whatever the caller then assigns to or deletes from the returned
  map, the struct's own map object stays as it was, so \<^verbatim>\<open>Get\<close> and \<^verbatim>\<open>Keys\<close> return what
  they returned before and a further \<^verbatim>\<open>Memories\<close> again yields the original mapping.
\<close>

theorem Memories_defensive_copy:
  assumes "data m = Some r" and "well_formed m w"
  shows "fst (Memories m w) = (Some (next_map w), None) \<and>
         next_map w \<noteq> r \<and>
         map_of (maps (snd (Memories m w)) (next_map w)) = map_of (maps w r) \<and>
         disk (snd (Memories m w)) = disk w \<and>
         syscalls (snd (Memories m w)) = syscalls w \<and>
         maps (exec_stmts (next_map w) stmts (snd (Memories m w))) r = maps w r \<and>
         Get m key (exec_stmts (next_map w) stmts (snd (Memories m w))) = Get m key w \<and>
         Keys m (exec_stmts (next_map w) stmts (snd (Memories m w))) = Keys m w \<and>
         map_of (maps (snd (Memories m (exec_stmts (next_map w) stmts (snd (Memories m w)))))
                   (Suc (next_map w))) = map_of (maps w r)"
proof -
  let ?c = "next_map w"
  let ?w1 = "snd (Memories m w)"
  let ?w2 = "exec_stmts ?c stmts ?w1"
  from assms have lt: "r < ?c" and d: "distinct (map fst (maps w r))"
    by (simp_all add: well_formed_def)
  have ne: "?c \<noteq> r" "r \<noteq> ?c" using lt by simp_all
  have a: "fst (Memories m w) = (Some ?c, None)"
    by (simp add: Memories_open [OF assms(1)])
  have b: "map_of (maps ?w1 ?c) = map_of (maps w r)"
    by (rule Memories_copy [OF assms(1) d])
  have dk: "disk ?w1 = disk w"
    by (simp add: Memories_open [OF assms(1)])
  have sk: "syscalls ?w1 = syscalls w"
    by (simp add: Memories_open [OF assms(1)])
  have r1: "maps ?w1 r = maps w r"
    using ne by (simp add: Memories_open [OF assms(1)])
  have r2: "maps ?w2 r = maps w r"
    using exec_stmts_other [OF ne(2), of stmts ?w1] r1 by simp
  have n1: "next_map ?w1 = Suc ?c"
    by (simp add: Memories_open [OF assms(1)])
  have n2: "next_map ?w2 = Suc ?c"
    using exec_stmts_next_map [of ?c stmts ?w1] n1 by simp
  have g: "Get m key ?w2 = Get m key w"
    using assms(1) r2 by (simp add: Get_def)
  have k: "Keys m ?w2 = Keys m w"
    using assms(1) r2 by (simp add: Keys_def)
  have d2: "distinct (map fst (maps ?w2 r))" using d r2 by simp
  have e: "map_of (maps (snd (Memories m ?w2)) (Suc ?c)) = map_of (maps w r)"
    using Memories_copy [OF assms(1) d2] n2 r2 by simp
  show ?thesis by (intro conjI a ne(1) b dk sk r2 g k e)
qed

text \<open>
  The caller overwrites, deletes and adds entries in the copy; the store still has
  \<open>foo\<close> bound to \<open>bar\<close>.
\<close>

theorem Memories_defensive_copy_witness:
  "data joe = Some 0 \<and> well_formed joe (map_assign 0 ''foo'' ''bar'' fresh) \<and>
   fst (Memories joe (map_assign 0 ''foo'' ''bar'' fresh)) = (Some 1, None) \<and>
   Get joe ''foo''
     (exec_stmts 1 [Assign ''foo'' ''changed'', Remove ''foo'', Assign ''new'' ''x'']
        (snd (Memories joe (map_assign 0 ''foo'' ''bar'' fresh)))) = (''bar'', True, None)"
proof -
  let ?w = "map_assign 0 ''foo'' ''bar'' fresh"
  have h: "data joe = Some 0" by (simp add: joe_def)
  have n: "next_map ?w = 1" by (simp add: map_assign_def fresh_def)
  have v: "well_formed joe ?w" by (simp add: well_formed_def joe_def map_assign_def fresh_def)
  have g: "Get joe ''foo'' ?w = (''bar'', True, None)"
    by (simp add: Get_def joe_def map_assign_def fresh_def map_index_def)
  note t = Memories_defensive_copy [OF h v,
      of "[Assign ''foo'' ''changed'', Remove ''foo'', Assign ''new'' ''x'']" "''foo''"]
  from t have t1: "fst (Memories joe ?w) = (Some (next_map ?w), None)" by (elim conjE)
  from t have t2: "Get joe ''foo''
     (exec_stmts (next_map ?w) [Assign ''foo'' ''changed'', Remove ''foo'', Assign ''new'' ''x'']
        (snd (Memories joe ?w))) = Get joe ''foo'' ?w" by (elim conjE)
  from t1 have a: "fst (Memories joe ?w) = (Some 1, None)" by (simp only: n)
  from t2 have b: "Get joe ''foo''
     (exec_stmts 1 [Assign ''foo'' ''changed'', Remove ''foo'', Assign ''new'' ''x'']
        (snd (Memories joe ?w))) = (''bar'', True, None)" by (simp only: n g)
  show ?thesis by (intro conjI h v a b)
qed

subsection \<open>NewMemory\<close>

text \<open>The only option of the package sets the logger and cannot fail.\<close>

lemma WithLogger_apply: "WithLogger l m = Inr (m\<lparr>logger := Some l\<rparr>)"
  by (simp add: WithLogger_def)

lemma apply_opts_WithLogger:
  "apply_opts (map WithLogger ls) m =
     Inr (m\<lparr>logger := (if ls = [] then logger m else Some (last ls))\<rparr>)"
proof (induction ls arbitrary: m)
  case Nil
  show ?case by simp
next
  case (Cons l ls)
  have s: "WithLogger l m = Inr (m\<lparr>logger := Some l\<rparr>)" by (rule WithLogger_apply)
  have "apply_opts (map WithLogger (l # ls)) m =
        apply_opts (map WithLogger ls) (m\<lparr>logger := Some l\<rparr>)"
    unfolding list.map apply_opts.simps s by simp
  then show ?case by (simp add: Cons.IH)
qed



lemma os_Open_result:
  "fst (os_Open p w) =
     (case disk w p of
        None \<Rightarrow> Inl (PathError ''open'' p ENOENT)
      | Some b \<Rightarrow>
          (case pending w of
             Fail e n # rest \<Rightarrow> Inl (PathError ''open'' p (Errno e))
           | _ \<Rightarrow> Inr p))"
  by (simp add: os_Open_def os_OpenFile_def issue_eq split: option.splits list.splits outcome.splits)






lemma NewMemory_open_fails:
  assumes "disk w p = Some b" and "pending w = Fail e n # rest"
  shows "fst (NewMemory J p (map WithLogger ls) w) =
           Inl (Wrap (PathError ''open'' p (Errno e)) ''failed to open file'')"
  using assms
  by (simp add: NewMemory_def make_map_def apply_opts_WithLogger os_Open_def os_OpenFile_def issue_eq)

lemma NewMemory_decode_fails:
  assumes "disk w p = Some b" and "Unmarshal J b = Inl e"
  shows "\<exists>err msg. fst (NewMemory J p (map WithLogger ls) w) = Inl (Wrap err msg)"
  using assms
  by (simp add: NewMemory_def make_map_def apply_opts_WithLogger os_Open_def os_OpenFile_def issue_eq
        json_Decode_def file_Read_def file_Close_def Let_def
        split: list.splits outcome.splits)

lemma NewMemory_quiet:
  assumes "disk w p = Some b" and "pending w = []"
  shows "NewMemory J p (map WithLogger ls) w =
     (case Unmarshal J b of
        Inl e \<Rightarrow> Inl (Wrap e ''failed decode data as JSON'')
      | Inr None \<Rightarrow>
          Inr \<lparr>path = p, logger = Some (if ls = [] then NewNop else last ls), data = None\<rparr>
      | Inr (Some members) \<Rightarrow>
          Inr \<lparr>path = p, logger = Some (if ls = [] then NewNop else last ls),
               data = Some (next_map w)\<rparr>,
      w\<lparr>maps := (maps w)(next_map w :=
              (case Unmarshal J b of
                 Inr (Some members) \<Rightarrow> fold (\<lambda>(k, v). AList.update k v) members []
               | _ \<Rightarrow> [])),
        next_map := Suc (next_map w),
        syscalls := syscalls w @ [SysOpen p [O_RDONLY] 0, SysRead p, SysClose p]\<rparr>)"
  using assms
  by (simp add: NewMemory_def make_map_def apply_opts_WithLogger os_Open_def os_OpenFile_def issue_eq
        json_Decode_def file_Read_def file_Close_def Let_def fold_map_assign
        split: sum.splits option.splits)



text \<open>
  C6, the document \<^verbatim>\<open>null\<close>. When the decoder finds the JSON value null in the file, it
  sets the map variable to nil and reports no error, so \<^verbatim>\<open>NewMemory\<close> takes the branch
  without an error and returns a struct whose \<^verbatim>\<open>data\<close> is nil: construction does not
  fail although the file holds no JSON object, and the store it returns is closed from
  the start: \<^verbatim>\<open>Get\<close> and \<^verbatim>\<open>Set\<close> answer "brain was already shut down" and \<^verbatim>\<open>Close\<close> answers
  "brain was already closed".
\<close>

theorem NewMemory_null_document:
  assumes "disk w p = Some b" and "Unmarshal J b = Inr None" and "pending w = []"
  shows "fst (NewMemory J p (map WithLogger ls) w) =
           Inr \<lparr>path = p, logger = Some (if ls = [] then NewNop else last ls), data = None\<rparr> \<and>
         Get \<lparr>path = p, logger = Some (if ls = [] then NewNop else last ls), data = None\<rparr> key
             (snd (NewMemory J p (map WithLogger ls) w)) =
           ([], False, Some (New ''brain was already shut down'')) \<and>
         fst (Set J \<lparr>path = p, logger = Some (if ls = [] then NewNop else last ls), data = None\<rparr>
                key val (snd (NewMemory J p (map WithLogger ls) w))) =
           Some (New ''brain was already shut down'') \<and>
         fst (Close \<lparr>path = p, logger = Some (if ls = [] then NewNop else last ls), data = None\<rparr>) =
           Some (New ''brain was already closed'')"
proof -
  let ?m = "\<lparr>path = p, logger = Some (if ls = [] then NewNop else last ls), data = None\<rparr>"
  have n: "fst (NewMemory J p (map WithLogger ls) w) = Inr ?m"
    by (simp add: NewMemory_quiet [OF assms(1) assms(3)] assms(2))
  have g: "\<And>w'. Get ?m key w' = ([], False, Some (New ''brain was already shut down''))"
    by (simp add: Get_def)
  have s: "\<And>w'. fst (Set J ?m key val w') = Some (New ''brain was already shut down'')"
    by (simp add: Set_def)
  have c: "fst (Close ?m) = Some (New ''brain was already closed'')"
    by (simp add: Close_def)
  show ?thesis by (intro conjI n g s c)
qed

text \<open>A backing file that holds the four bytes \<^verbatim>\<open>null\<close>.\<close>

theorem NewMemory_null_document_witness:
  "disk (boot\<lparr>disk := [''/tmp/joe.json'' \<mapsto> ''null'']\<rparr>) ''/tmp/joe.json'' = Some ''null'' \<and>
   Unmarshal sample_json ''null'' = Inr None \<and>
   pending (boot\<lparr>disk := [''/tmp/joe.json'' \<mapsto> ''null'']\<rparr>) = [] \<and>
   fst (NewMemory sample_json ''/tmp/joe.json'' [] (boot\<lparr>disk := [''/tmp/joe.json'' \<mapsto> ''null'']\<rparr>)) =
     Inr \<lparr>path = ''/tmp/joe.json'', logger = Some NewNop, data = None\<rparr>"
proof -
  let ?w = "boot\<lparr>disk := [''/tmp/joe.json'' \<mapsto> ''null'']\<rparr>"
  have a: "disk ?w ''/tmp/joe.json'' = Some ''null''" by simp
  have b: "Unmarshal sample_json ''null'' = Inr None" by (simp add: sample_json_def)
  have c: "pending ?w = []" by (simp add: boot_def)
  from NewMemory_null_document [OF a b c, of "[]"]
  have n: "fst (NewMemory sample_json ''/tmp/joe.json'' [] ?w) =
     Inr \<lparr>path = ''/tmp/joe.json'', logger = Some NewNop, data = None\<rparr>"
    by simp
  show ?thesis by (intro conjI a b c n)
qed

subsection \<open>When the backing file appears\<close>





subsection \<open>Writing, closing, constructing again\<close>



lemma NewMemory_Inr:
  assumes "NewMemory J p (map WithLogger ls) w = (Inr m, w')" and "data m = Some r"
  shows "path m = p \<and> r = next_map w \<and>
         (case disk w p of
            None \<Rightarrow> maps w' r = []
          | Some b \<Rightarrow>
              (case Unmarshal J b of
                 Inr (Some members) \<Rightarrow> maps w' r = fold (\<lambda>(k, v). AList.update k v) members []
               | _ \<Rightarrow> False))"
  using assms
  by (auto simp add: NewMemory_def make_map_def apply_opts_WithLogger os_Open_def os_OpenFile_def issue_eq
        json_Decode_def file_Read_def file_Close_def Let_def fold_map_assign
        split: sum.splits option.splits list.splits outcome.splits if_splits)



subsection \<open>Reachable states are well-formed\<close>

text \<open>
  The store \<^verbatim>\<open>NewMemory\<close> returns is well-formed, and every operation keeps it so; this
  is the hypothesis of the properties of \<^verbatim>\<open>Keys\<close> and \<^verbatim>\<open>Memories\<close> above.
\<close>

lemma NewMemory_next_map:
  "next_map (snd (NewMemory J p (map WithLogger ls) w)) = Suc (next_map w)"
  by (simp add: NewMemory_def make_map_def apply_opts_WithLogger os_Open_def os_OpenFile_def issue_eq
        json_Decode_def file_Read_def file_Close_def Let_def fold_map_assign
        split: sum.splits option.splits list.splits outcome.splits)

lemma NewMemory_well_formed:
  assumes "NewMemory J p (map WithLogger ls) w = (Inr m, w')"
  shows "well_formed m w'"
proof (cases "data m")
  case None
  then show ?thesis by (simp add: well_formed_def)
next
  case (Some r)
  note n = NewMemory_Inr [OF assms Some]
  have nm: "next_map w' = Suc (next_map w)"
    using NewMemory_next_map [of J p ls w] assms by simp
  from n have "distinct (map fst (maps w' r))"
    by (auto simp: fold_update_distinct split: option.splits sum.splits)
  with n nm Some show ?thesis by (simp add: well_formed_def)
qed

lemma Set_well_formed: "well_formed m w \<Longrightarrow> well_formed m (snd (Set J m k v w))"
  by (cases "data m")
     (simp_all add: well_formed_def Set_def persist_frame map_assign_def distinct_update)

lemma memory_Delete_well_formed: "well_formed m w \<Longrightarrow> well_formed m (snd (memory_Delete J m k w))"
  by (cases "data m")
     (simp_all add: well_formed_def memory_Delete_def persist_frame map_delete_def distinct_delete
        case_prod_beta)

lemma Memory_Delete_well_formed: "well_formed m w \<Longrightarrow> well_formed m (snd (Memory_Delete J m k w))"
  by (cases "data m")
     (simp_all add: well_formed_def Memory_Delete_def persist_frame map_delete_def distinct_delete
        case_prod_beta)

lemma Memories_well_formed: "well_formed m w \<Longrightarrow> well_formed m (snd (Memories m w))"
  by (cases "data m") (auto simp add: well_formed_def Memories_open)

end
